theory Spec2Isabelle
  imports Main "HOL-Library.Word"
begin

text \<open>
  The backend that turns e-mails into board items: the field extraction, the request that
  creates an item, the endpoint that configures the allowed sender, the listener that polls
  the mailbox, and the resolution of the board's columns at onboarding. The functions keep the
  names they have in \<open>server.js\<close>.
\<close>

section \<open>JavaScript strings\<close>

text \<open>
  A JavaScript string is a sequence of 16-bit code units. \<open>js\<close> turns an ASCII literal
  into such a sequence, so that inputs can be written as text.
\<close>

type_synonym jschar = "16 word"
type_synonym jsstring = "jschar list"

definition js :: "string \<Rightarrow> jsstring" where
  "js s = map of_char s"

text \<open>
  The line terminators of ECMAScript (LF, CR, LS, PS) and its white space: \<open>String.prototype.trim\<close>
  and the regular-expression class \<open>\s\<close> both use white space together with the line terminators;
  the regular-expression atom \<open>.\<close> (without the \<open>s\<close> flag) matches everything but a line terminator.
\<close>

definition isLineTerminator :: "jschar \<Rightarrow> bool" where
  "isLineTerminator c = (c = 0x0A \<or> c = 0x0D \<or> c = 0x2028 \<or> c = 0x2029)"

definition isWhiteSpace :: "jschar \<Rightarrow> bool" where
  "isWhiteSpace c =
     (c = 0x09 \<or> c = 0x0B \<or> c = 0x0C \<or> c = 0x20 \<or> c = 0xA0 \<or> c = 0x1680 \<or>
      (0x2000 \<le> c \<and> c \<le> 0x200A) \<or> c = 0x202F \<or> c = 0x205F \<or> c = 0x3000 \<or>
      c = 0xFEFF \<or> isLineTerminator c)"

definition trim :: "jsstring \<Rightarrow> jsstring" where
  "trim s = rev (dropWhile isWhiteSpace (rev (dropWhile isWhiteSpace s)))"

text \<open>\<open>text.split("\n")\<close>: the pieces between line feeds; the empty string gives one empty piece.\<close>

fun split_nl :: "jsstring \<Rightarrow> jsstring list" where
  "split_nl [] = [[]]"
| "split_nl (c # cs) =
     (if c = 0x0A then [] # split_nl cs
      else (case split_nl cs of l # ls \<Rightarrow> (c # l) # ls | [] \<Rightarrow> [[c]]))"

section \<open>Email helpers\<close>

text \<open>
  \<open>extractPatientName\<close>: split at line feeds, trim every piece, drop the empty ones
  (\<open>filter(Boolean)\<close>), take element 0; \<open>undefined\<close> is \<open>None\<close>.
\<close>

definition extractPatientName :: "jsstring \<Rightarrow> jsstring option" where
  "extractPatientName text =
     (case filter (\<lambda>l. l \<noteq> []) (map trim (split_nl text)) of
        [] \<Rightarrow> None
      | n # _ \<Rightarrow> Some n)"

text \<open>
  \<open>extractValue\<close> builds the regular expression \<open>label:\s*(.+)\<close> with flag \<open>i\<close> and returns
  the trimmed first capture of its leftmost match, \<open>null\<close> (here \<open>None\<close>) when there is none.
  The matcher below is the backtracking matcher of that expression, for a label made of
  letters and spaces (the four labels of the caller have no other character):

  \<^item> \<open>canonicalize\<close> is the case folding of flag \<open>i\<close> without flag \<open>u\<close>: a code unit below 128 is
    compared through its upper case; a code unit from 128 on never canonicalizes to one below
    128, so it never equals a character of an ASCII label;
  \<^item> \<open>match_dot_plus\<close> is the greedy \<open>(.+)\<close>, which ends the expression: the longest run of
    characters that are no line terminators, at least one;
  \<^item> \<open>match_space_star\<close> is the greedy \<open>\s*\<close> followed by the rest: it first tries to take one
    more white-space character and falls back to taking none.
\<close>

definition canonicalize :: "jschar \<Rightarrow> jschar" where
  "canonicalize c = (if 0x61 \<le> c \<and> c \<le> 0x7A then c - 0x20 else c)"

fun match_label :: "jsstring \<Rightarrow> jsstring \<Rightarrow> jsstring option" where
  "match_label [] s = Some s"
| "match_label (p # ps) [] = None"
| "match_label (p # ps) (c # cs) =
     (if canonicalize p = canonicalize c then match_label ps cs else None)"

definition match_dot_plus :: "jsstring \<Rightarrow> jsstring option" where
  "match_dot_plus s =
     (let m = takeWhile (\<lambda>c. \<not> isLineTerminator c) s in if m = [] then None else Some m)"

fun match_space_star :: "jsstring \<Rightarrow> jsstring option" where
  "match_space_star [] = match_dot_plus []"
| "match_space_star (c # cs) =
     (if isWhiteSpace c
      then (case match_space_star cs of Some m \<Rightarrow> Some m | None \<Rightarrow> match_dot_plus (c # cs))
      else match_dot_plus (c # cs))"

definition match_at :: "jsstring \<Rightarrow> jsstring \<Rightarrow> jsstring option" where
  "match_at label s =
     (case match_label label s of
        None \<Rightarrow> None
      | Some r \<Rightarrow> (case r of [] \<Rightarrow> None
                    | c # cs \<Rightarrow> if c = 0x3A then match_space_star cs else None))"

text \<open>\<open>text.match(r)\<close> without flag \<open>g\<close>: the match at the leftmost position that has one.\<close>

fun regex_exec :: "jsstring \<Rightarrow> jsstring \<Rightarrow> jsstring option" where
  "regex_exec label [] = match_at label []"
| "regex_exec label (c # cs) =
     (case match_at label (c # cs) of Some m \<Rightarrow> Some m | None \<Rightarrow> regex_exec label cs)"

definition extractValue :: "jsstring \<Rightarrow> jsstring \<Rightarrow> jsstring option" where
  "extractValue label text = map_option trim (regex_exec label text)"

section \<open>Creating the item: payload and request text\<close>

text \<open>
  The tenant record kept in \<open>boardStore\<close>: the access token, the column identifiers under
  the keys \<open>email\<close>, \<open>phone\<close>, \<open>service\<close>, \<open>note\<close>, and the allowed sender, which is
  absent until the configuration endpoint has stored one.
\<close>

datatype field = Email | Phone | Service | Note

record tenant =
  accessToken :: jsstring
  columns :: "field \<Rightarrow> jsstring option"
  allowedSenderEmail :: "jsstring option"

text \<open>
  JSON values as far as \<open>createItem\<close> builds them: strings and objects, an object being its
  properties in insertion order. \<open>obj_set\<close> is the assignment \<open>values[k] = v\<close>: an existing
  property keeps its place and takes the new value, a new one goes to the end. (Property names
  that are array indices would be enumerated first by the engine; column identifiers are
  taken not to be of that shape.)
\<close>

datatype json = JString jsstring | JObject "(jsstring \<times> json) list"

fun obj_set :: "(jsstring \<times> 'v) list \<Rightarrow> jsstring \<Rightarrow> 'v \<Rightarrow> (jsstring \<times> 'v) list" where
  "obj_set [] k v = [(k, v)]"
| "obj_set ((k', v') # ps) k v = (if k' = k then (k, v) # ps else (k', v') # obj_set ps k v)"

text \<open>
  \<open>JSON.stringify\<close> on these values. A string is quoted with the short escapes for backspace,
  tab, line feed, form feed, carriage return, the double quote and the backslash, a
  four-digit escape (lower-case hexadecimal digits) for the other code units below 0x20 and for a
  surrogate that is not part of a pair, and every other code unit as it is.
\<close>

definition hex_digit :: "jschar \<Rightarrow> jschar" where
  "hex_digit d = (if d < 10 then 0x30 + d else 0x57 + d)"

definition unicode_escape :: "jschar \<Rightarrow> jsstring" where
  "unicode_escape c =
     [0x5C, 0x75, hex_digit (drop_bit 12 c), hex_digit (and (drop_bit 8 c) 0xF),
      hex_digit (and (drop_bit 4 c) 0xF), hex_digit (and c 0xF)]"

definition quote_code_unit :: "jschar \<Rightarrow> jsstring" where
  "quote_code_unit c =
     (if c = 0x08 then [0x5C, 0x62]
      else if c = 0x09 then [0x5C, 0x74]
      else if c = 0x0A then [0x5C, 0x6E]
      else if c = 0x0C then [0x5C, 0x66]
      else if c = 0x0D then [0x5C, 0x72]
      else if c = 0x22 then [0x5C, 0x22]
      else if c = 0x5C then [0x5C, 0x5C]
      else if c < 0x20 then unicode_escape c
      else [c])"

definition isLeadSurrogate :: "jschar \<Rightarrow> bool" where
  "isLeadSurrogate c = (0xD800 \<le> c \<and> c \<le> 0xDBFF)"

definition isTrailSurrogate :: "jschar \<Rightarrow> bool" where
  "isTrailSurrogate c = (0xDC00 \<le> c \<and> c \<le> 0xDFFF)"

fun quote_body :: "jsstring \<Rightarrow> jsstring" where
  "quote_body [] = []"
| "quote_body [c] =
     (if isLeadSurrogate c \<or> isTrailSurrogate c then unicode_escape c else quote_code_unit c)"
| "quote_body (c # d # ds) =
     (if isLeadSurrogate c \<and> isTrailSurrogate d then c # d # quote_body ds
      else if isLeadSurrogate c \<or> isTrailSurrogate c then unicode_escape c @ quote_body (d # ds)
      else quote_code_unit c @ quote_body (d # ds))"

definition quoteJSONString :: "jsstring \<Rightarrow> jsstring" where
  "quoteJSONString s = [0x22] @ quote_body s @ [0x22]"

fun join_comma :: "jsstring list \<Rightarrow> jsstring" where
  "join_comma [] = []"
| "join_comma [x] = x"
| "join_comma (x # y # ys) = x @ [0x2C] @ join_comma (y # ys)"

fun stringify :: "json \<Rightarrow> jsstring" where
  "stringify (JString s) = quoteJSONString s"
| "stringify (JObject ps) =
     [0x7B] @ join_comma (map (\<lambda>(k, v). quoteJSONString k @ [0x3A] @ stringify v) ps) @ [0x7D]"

text \<open>The global replacement applied to the JSON text: a backslash goes in front of every double quote.\<close>

definition replace_quotes :: "jsstring \<Rightarrow> jsstring" where
  "replace_quotes s = concat (map (\<lambda>c. if c = 0x22 then [0x5C, 0x22] else [c]) s)"

text \<open>
  The tests \<open>if (email)\<close>, \<open>if (!name)\<close>, \<open>!allowedSender\<close> and \<open>parsed.text || ...\<close> are on values
  that are a string, \<open>null\<close> or \<open>undefined\<close>: such a value is truthy when it is a string that
  is not empty.
\<close>

definition truthy :: "jsstring option \<Rightarrow> bool" where
  "truthy v = (case v of None \<Rightarrow> False | Some s \<Rightarrow> s \<noteq> [])"

text \<open>\<open>cfg.columns.email\<close> as a property name: a missing entry would give the name \<open>undefined\<close>.\<close>

definition column_key :: "tenant \<Rightarrow> field \<Rightarrow> jsstring" where
  "column_key cfg f = (case columns cfg f of Some i \<Rightarrow> i | None \<Rightarrow> js ''undefined'')"

definition createItem_values ::
  "tenant \<Rightarrow> jsstring option \<Rightarrow> jsstring option \<Rightarrow> jsstring option \<Rightarrow> jsstring option
     \<Rightarrow> (jsstring \<times> json) list" where
  "createItem_values cfg email phone service note =
     (let values = [];
          values = (if truthy email
                    then obj_set values (column_key cfg Email)
                           (JObject [(js ''email'', JString (the email)),
                                     (js ''text'', JString (the email))])
                    else values);
          values = (if truthy phone
                    then obj_set values (column_key cfg Phone)
                           (JObject [(js ''phone'', JString (the phone)),
                                     (js ''countryShortName'', JString (js ''IN''))])
                    else values);
          values = (if truthy service
                    then obj_set values (column_key cfg Service)
                           (JObject [(js ''label'', JString (the service))])
                    else values);
          values = (if truthy note
                    then obj_set values (column_key cfg Note) (JString (the note))
                    else values)
      in values)"

text \<open>The template literal of \<open>createItem\<close>, with its line breaks and indentation.\<close>

definition createItem_query :: "jsstring \<Rightarrow> jsstring \<Rightarrow> (jsstring \<times> json) list \<Rightarrow> jsstring" where
  \<open>createItem_query boardId name values =
     js ''\<newline>    mutation {\<newline>      create_item(\<newline>        board_id: '' @ boardId @
     js '',\<newline>        item_name: "'' @ name @
     js ''",\<newline>        column_values: "'' @ replace_quotes (stringify (JObject values)) @
     js ''"\<newline>      ) {\<newline>        id\<newline>      }\<newline>    }\<newline>  ''\<close>

text \<open>
  What the receiving side reads as a quoted GraphQL string, given the text after the opening
  quote: the characters up to the first double quote that is not escaped by a backslash, and
  the text after that quote. A line break inside the string, or no closing quote, is an error.
\<close>

fun graphql_string_body :: "jsstring \<Rightarrow> (jsstring \<times> jsstring) option" where
  "graphql_string_body [] = None"
| "graphql_string_body [c] = (if c = 0x22 then Some ([], []) else None)"
| "graphql_string_body (c # d # ds) =
     (if c = 0x22 then Some ([], d # ds)
      else if c = 0x0A \<or> c = 0x0D then None
      else if c = 0x5C
      then map_option (\<lambda>(s, r). (c # d # s, r)) (graphql_string_body ds)
      else map_option (\<lambda>(s, r). (c # s, r)) (graphql_string_body (d # ds)))"

section \<open>Process state and the sender configuration endpoint\<close>

text \<open>
  The state of the process: the tenants of \<open>boardStore\<close> (its own properties, by board
  identifier), the set \<open>processedUids\<close>, and the value of the property \<open>allowedSenderEmail\<close> on
  \<open>Object.prototype\<close>, which every tenant record without that property of its own inherits
  (the store and the tenant records are plain object literals). \<open>history\<close> is not program
  state: it lists, in the order they happen, the additions to \<open>processedUids\<close> and the calls
  issued to the mailbox (\<open>addFlags\<close>) and to the record store (\<open>createItem\<close>, with the token and
  the request text), each with the uid of the message it is made for.
\<close>

datatype event =
    Claim nat
  | AddFlagsSeen nat
  | CreateItemCall nat jsstring jsstring

record app_state =
  boardStore :: "jsstring \<rightharpoonup> tenant"
  proto_allowedSenderEmail :: "jsstring option"
  processedUids :: "nat set"
  history :: "event list"

definition initial_state :: "(jsstring \<rightharpoonup> tenant) \<Rightarrow> app_state" where
  "initial_state registry =
     \<lparr>boardStore = registry, proto_allowedSenderEmail = None, processedUids = {}, history = []\<rparr>"

datatype error = TypeError | Rejected

text \<open>
  \<open>String.prototype.toLowerCase\<close>. On a string of code units below 128 it maps the letters A to Z
  to a to z; on any other string the result comes from the Unicode tables of the engine, which
  are the parameter \<open>unicodeLower\<close>.
\<close>

definition toLowerCase :: "(jsstring \<Rightarrow> jsstring) \<Rightarrow> jsstring \<Rightarrow> jsstring" where
  "toLowerCase unicodeLower s =
     (if list_all (\<lambda>c. c < 0x80) s
      then map (\<lambda>c. if 0x41 \<le> c \<and> c \<le> 0x5A then c + 0x20 else c) s
      else unicodeLower s)"

text \<open>
  The property names that every plain object inherits from \<open>Object.prototype\<close>. For such a
  name \<open>boardStore[boardId]\<close> is a built-in function, or \<open>Object.prototype\<close> itself for
  \<open>__proto__\<close>, and so it is truthy although no tenant has that identifier. Once
  \<open>Object.prototype\<close> has a property \<open>allowedSenderEmail\<close>, that name is inherited as well, with a
  string as its value.
\<close>

definition Object_prototype_keys :: "jsstring list" where
  "Object_prototype_keys =
     [js ''constructor'', js ''__defineGetter__'', js ''__defineSetter__'', js ''hasOwnProperty'',
      js ''__lookupGetter__'', js ''__lookupSetter__'', js ''isPrototypeOf'',
      js ''propertyIsEnumerable'', js ''toString'', js ''valueOf'', js ''__proto__'',
      js ''toLocaleString'']"

definition inherited_truthy :: "app_state \<Rightarrow> jsstring \<Rightarrow> bool" where
  "inherited_truthy st k =
     (k \<in> set Object_prototype_keys
      \<or> (k = js ''allowedSenderEmail'' \<and> truthy (proto_allowedSenderEmail st)))"

text \<open>
  The handler of \<open>POST /config/sender\<close>. The arguments are the property name that the body's
  \<open>boardId\<close> denotes and the body's \<open>allowedSenderEmail\<close>, which is \<open>Some s\<close> for a JSON string and
  \<open>None\<close> for anything else (missing, \<open>null\<close>, a number, an object: none of these has a
  callable \<open>toLowerCase\<close>). The answers are the 404 error (\<open>NotFound\<close>), the confirmation
  (\<open>Saved\<close>) and the TypeError raised inside the handler (\<open>Threw\<close>). The object on the left of
  the assignment is looked up before the right-hand side is evaluated, and nothing is written
  when the right-hand side raises. A value assigned to one of the inherited functions is read
  by nothing, and a value assigned to a property of a string is dropped (the module is not in
  strict mode); a value assigned to \<open>Object.prototype\<close> is kept in \<open>proto_allowedSenderEmail\<close>.
\<close>

datatype response = NotFound | Saved | Threw

definition config_sender ::
  "(jsstring \<Rightarrow> jsstring) \<Rightarrow> jsstring \<Rightarrow> jsstring option \<Rightarrow> app_state
     \<Rightarrow> response \<times> app_state" where
  "config_sender unicodeLower boardId email st =
     (case boardStore st boardId of
        Some cfg \<Rightarrow>
          (case email of
             None \<Rightarrow> (Threw, st)
           | Some s \<Rightarrow>
               (Saved,
                st\<lparr>boardStore := (boardStore st)(boardId \<mapsto>
                      cfg\<lparr>allowedSenderEmail := Some (toLowerCase unicodeLower s)\<rparr>)\<rparr>))
      | None \<Rightarrow>
          if inherited_truthy st boardId
          then (case email of
                  None \<Rightarrow> (Threw, st)
                | Some s \<Rightarrow>
                    (Saved,
                     if boardId = js ''__proto__''
                     then st\<lparr>proto_allowedSenderEmail := Some (toLowerCase unicodeLower s)\<rparr>
                     else st))
          else (NotFound, st))"

section \<open>The email listener\<close>

text \<open>
  One entry of a search result, with what the outside world answers while it is processed:
  \<open>parsed\<close> is the result of \<open>simpleParser\<close> (\<open>None\<close> when its promise is rejected), with the
  sender address \<open>parsed.from?.value?.[0]?.address\<close>, the text part, and the text that
  \<open>htmlToText\<close> gives for the HTML part; \<open>createItem_ok\<close> and \<open>addFlags_ok\<close> tell whether the
  request to the record store and the call that sets the flag Seen resolve.
\<close>

record mail =
  from_address :: "jsstring option"
  text_part :: "jsstring option"
  html_as_text :: jsstring

record search_result =
  uid :: nat
  parsed :: "mail option"
  createItem_ok :: bool
  addFlags_ok :: bool

definition claim :: "search_result \<Rightarrow> app_state \<Rightarrow> app_state" where
  "claim res st =
     st\<lparr>processedUids := insert (uid res) (processedUids st),
        history := history st @ [Claim (uid res)]\<rparr>"

definition addFlags :: "search_result \<Rightarrow> app_state \<Rightarrow> error option \<times> app_state" where
  "addFlags res st =
     (if addFlags_ok res then None else Some Rejected,
      st\<lparr>history := history st @ [AddFlagsSeen (uid res)]\<rparr>)"

text \<open>\<open>boardStore[boardId].allowedSenderEmail\<close>, read from the tenant record \<open>cfg\<close>.\<close>

definition get_allowedSenderEmail :: "app_state \<Rightarrow> tenant \<Rightarrow> jsstring option" where
  "get_allowedSenderEmail st cfg =
     (case allowedSenderEmail cfg of Some s \<Rightarrow> Some s | None \<Rightarrow> proto_allowedSenderEmail st)"

text \<open>\<open>parsed.text || htmlToText(parsed.html || "")\<close>\<close>

definition body_text :: "mail \<Rightarrow> jsstring" where
  "body_text p = (if truthy (text_part p) then the (text_part p) else html_as_text p)"

text \<open>
  \<open>createItem\<close>: the request is issued, then its promise resolves or is rejected. Without a
  tenant record the function raises before it issues anything.
\<close>

definition createItem ::
  "search_result \<Rightarrow> jsstring \<Rightarrow> jsstring \<Rightarrow> jsstring option \<Rightarrow> jsstring option \<Rightarrow>
   jsstring option \<Rightarrow> jsstring option \<Rightarrow> app_state \<Rightarrow> error option \<times> app_state" where
  "createItem res boardId name email phone service note st =
     (case boardStore st boardId of
        None \<Rightarrow> (Some TypeError, st)
      | Some cfg \<Rightarrow>
          (let values = createItem_values cfg email phone service note;
               query = createItem_query boardId name values
           in (if createItem_ok res then None else Some Rejected,
               st\<lparr>history := history st @
                    [CreateItemCall (uid res) (accessToken cfg) query]\<rparr>)))"

text \<open>
  The body of the loop over the search results, for one entry, when nothing else runs while
  the body waits at its awaits. The result \<open>None\<close> means that
  the loop goes on with the next entry (the body ran to its end or reached a \<open>continue\<close>);
  \<open>Some e\<close> means that an awaited promise was rejected or an exception was raised: nothing
  in the callback catches it, so it leaves the loop and the callback. The listener runs for a
  board identifier that was registered just before it was started and entries are never
  removed, so \<open>boardStore[boardId]\<close> is the tenant's record; a missing record raises.
\<close>

definition process_message ::
  "jsstring \<Rightarrow> search_result \<Rightarrow> app_state \<Rightarrow> error option \<times> app_state" where
  "process_message boardId res st =
     (if uid res \<in> processedUids st then (None, st)
      else
        let st1 = claim res st
        in case parsed res of
             None \<Rightarrow> (Some Rejected, st1)
           | Some p \<Rightarrow>
               (case boardStore st1 boardId of
                  None \<Rightarrow> (Some TypeError, st1)
                | Some cfg \<Rightarrow>
                    (let allowedSender = get_allowedSenderEmail st1 cfg
                     in if \<not> truthy allowedSender \<or> from_address p \<noteq> allowedSender
                        then addFlags res st1
                        else
                          let text = body_text p
                          in case extractPatientName text of
                               None \<Rightarrow> (None, st1)
                             | Some name \<Rightarrow>
                                 (let phone = extractValue (js ''Phone Number'') text;
                                      email = extractValue (js ''Email Address'') text;
                                      service = extractValue (js ''Service'') text;
                                      note = extractValue (js ''Special Note'') text
                                  in case createItem res boardId name email phone service note st1 of
                                       (Some e, st2) \<Rightarrow> (Some e, st2)
                                     | (None, st2) \<Rightarrow> addFlags res st2))))"

fun poll_loop ::
  "jsstring \<Rightarrow> search_result list \<Rightarrow> app_state \<Rightarrow> error option \<times> app_state" where
  "poll_loop boardId [] st = (None, st)"
| "poll_loop boardId (res # results) st =
     (case process_message boardId res st of
        (Some e, st') \<Rightarrow> (Some e, st')
      | (None, st') \<Rightarrow> poll_loop boardId results st')"

text \<open>
  One run of the timer callback: the search (\<open>None\<close> when its promise is rejected), then the
  loop over its results.
\<close>

definition poll_cycle ::
  "jsstring \<Rightarrow> search_result list option \<Rightarrow> app_state \<Rightarrow> error option \<times> app_state" where
  "poll_cycle boardId search st =
     (case search of None \<Rightarrow> (Some Rejected, st) | Some results \<Rightarrow> poll_loop boardId results st)"

section \<open>Callbacks that overlap\<close>

text \<open>
  The timer fires every 15 seconds whether or not the previous callback has ended, and a
  callback gives way to other callbacks and to the HTTP handlers at each \<open>await\<close>. What runs
  between two awaits runs alone. A callback that waits is described by the board of its
  listener, the entry it is working on, the await at which it waits (for the parser, for the
  record-creation request, or for the flag call), and the entries it has not reached.
\<close>

datatype stage = AwaitParse | AwaitCreate | AwaitFlags

record callback =
  cb_board :: jsstring
  cb_current :: search_result
  cb_stage :: stage
  cb_rest :: "search_result list"

text \<open>
  From the head of the loop: entries whose uid is in \<open>processedUids\<close> are passed over; the
  first other entry is claimed and its parser is started, where the callback waits. With no
  such entry the callback ends.
\<close>

fun advance ::
  "jsstring \<Rightarrow> search_result list \<Rightarrow> app_state \<Rightarrow> callback option \<times> app_state" where
  "advance boardId [] st = (None, st)"
| "advance boardId (res # results) st =
     (if uid res \<in> processedUids st then advance boardId results st
      else (Some \<lparr>cb_board = boardId, cb_current = res, cb_stage = AwaitParse,
                  cb_rest = results\<rparr>,
            claim res st))"

text \<open>
  The awaited promise of a waiting callback settles, and the callback runs up to its next
  await (\<open>Some\<close> of the callback as it waits then) or to its end (\<open>None\<close>, be it by a rejected
  promise, an exception, or the end of the results). The state is the one at the time of the
  resumption: the tenant record and the allowed sender are read after the parser has
  finished.
\<close>

definition resume :: "callback \<Rightarrow> app_state \<Rightarrow> callback option \<times> app_state" where
  "resume cb st =
     (let boardId = cb_board cb; res = cb_current cb
      in case cb_stage cb of
           AwaitParse \<Rightarrow>
             (case parsed res of
                None \<Rightarrow> (None, st)
              | Some p \<Rightarrow>
                  (case boardStore st boardId of
                     None \<Rightarrow> (None, st)
                   | Some cfg \<Rightarrow>
                       (let allowedSender = get_allowedSenderEmail st cfg
                        in if \<not> truthy allowedSender \<or> from_address p \<noteq> allowedSender
                           then (Some (cb\<lparr>cb_stage := AwaitFlags\<rparr>), snd (addFlags res st))
                           else
                             let text = body_text p
                             in case extractPatientName text of
                                  None \<Rightarrow> advance boardId (cb_rest cb) st
                                | Some name \<Rightarrow>
                                    (let phone = extractValue (js ''Phone Number'') text;
                                         email = extractValue (js ''Email Address'') text;
                                         service = extractValue (js ''Service'') text;
                                         note = extractValue (js ''Special Note'') text
                                     in (Some (cb\<lparr>cb_stage := AwaitCreate\<rparr>),
                                         snd (createItem res boardId name email phone service
                                                note st))))))
         | AwaitCreate \<Rightarrow>
             (if createItem_ok res
              then (Some (cb\<lparr>cb_stage := AwaitFlags\<rparr>), snd (addFlags res st))
              else (None, st))
         | AwaitFlags \<Rightarrow>
             (if addFlags_ok res then advance boardId (cb_rest cb) st else (None, st)))"

text \<open>
  The process: its state and the callbacks that wait. A run is a sequence of three kinds of
  events: the timer of a listener fires and its search settles (with the results, or rejected),
  the promise of the waiting callback number \<open>i\<close> settles, a request reaches the configuration
  endpoint. A callback that ended with an error leaves the state as it was, and the timers
  go on. The tenants are the ones registered at the start; onboarding during a run is not
  among the events.
\<close>

record process =
  app :: app_state
  suspended :: "callback list"

datatype action =
    TimerFires jsstring "search_result list option"
  | Settles nat
  | ConfigSender jsstring "jsstring option"

fun step :: "(jsstring \<Rightarrow> jsstring) \<Rightarrow> process \<Rightarrow> action \<Rightarrow> process" where
  "step unicodeLower pr (TimerFires boardId search) =
     (case search of
        None \<Rightarrow> pr
      | Some results \<Rightarrow>
          (case advance boardId results (app pr) of
             (None, st') \<Rightarrow> pr\<lparr>app := st'\<rparr>
           | (Some cb, st') \<Rightarrow> \<lparr>app = st', suspended = suspended pr @ [cb]\<rparr>))"
| "step unicodeLower pr (Settles i) =
     (if i < length (suspended pr)
      then (case resume (suspended pr ! i) (app pr) of
              (None, st') \<Rightarrow>
                \<lparr>app = st', suspended = take i (suspended pr) @ drop (Suc i) (suspended pr)\<rparr>
            | (Some cb, st') \<Rightarrow> \<lparr>app = st', suspended = (suspended pr)[i := cb]\<rparr>)
      else pr)"
| "step unicodeLower pr (ConfigSender boardId email) =
     pr\<lparr>app := snd (config_sender unicodeLower boardId email (app pr))\<rparr>"

definition run :: "(jsstring \<Rightarrow> jsstring) \<Rightarrow> action list \<Rightarrow> process \<Rightarrow> process" where
  "run unicodeLower acts pr = foldl (step unicodeLower) pr acts"

definition start :: "(jsstring \<rightharpoonup> tenant) \<Rightarrow> process" where
  "start registry = \<lparr>app = initial_state registry, suspended = []\<rparr>"

text \<open>
  A callback that is resumed again and again, with nothing in between, until it ends, and the
  state it leaves.
\<close>

inductive drains :: "callback option \<times> app_state \<Rightarrow> app_state \<Rightarrow> bool" where
  ended: "drains (None, st) st"
| settled: "drains (resume cb st) st' \<Longrightarrow> drains (Some cb, st) st'"

text \<open>
  Readings of a history: the uids for which a record-creation call was issued, in order;
  whether every such call comes after the addition of its uid to \<open>processedUids\<close> (\<open>C\<close> holds
  the uids added so far); the uids added. \<open>parsing_uids\<close> are the uids that waiting callbacks
  have claimed and not yet decided on. \<open>process_inv\<close> is the invariant of the ledger.
\<close>

fun created_uids :: "event list \<Rightarrow> nat list" where
  "created_uids [] = []"
| "created_uids (CreateItemCall u t q # es) = u # created_uids es"
| "created_uids (e # es) = created_uids es"

fun claimed_before_create :: "nat set \<Rightarrow> event list \<Rightarrow> bool" where
  "claimed_before_create C [] = True"
| "claimed_before_create C (Claim u # es) = claimed_before_create (insert u C) es"
| "claimed_before_create C (CreateItemCall u t q # es) = (u \<in> C \<and> claimed_before_create C es)"
| "claimed_before_create C (e # es) = claimed_before_create C es"

fun claims_of :: "event list \<Rightarrow> nat set" where
  "claims_of [] = {}"
| "claims_of (Claim u # es) = insert u (claims_of es)"
| "claims_of (e # es) = claims_of es"

definition parsing_uids :: "callback list \<Rightarrow> nat list" where
  "parsing_uids cbs =
     map (\<lambda>cb. uid (cb_current cb)) (filter (\<lambda>cb. cb_stage cb = AwaitParse) cbs)"

definition process_inv :: "process \<Rightarrow> bool" where
  "process_inv pr =
     (claimed_before_create {} (history (app pr)) \<and>
      claims_of (history (app pr)) = processedUids (app pr) \<and>
      distinct (parsing_uids (suspended pr) @ created_uids (history (app pr))) \<and>
      set (parsing_uids (suspended pr) @ created_uids (history (app pr)))
        \<subseteq> processedUids (app pr))"

section \<open>Schema resolution\<close>

text \<open>
  The board on the side of the record store, as far as \<open>ensureColumns\<close> sees it: the list of
  its columns (identifier and title) and the number of requests it has received. The behaviour
  of the store is not part of the program and is described by two parameters and one
  convention:

  \<^item> \<open>up n\<close> tells whether request number \<open>n\<close> is answered with the data asked for; otherwise the
    promise is rejected, or the answer lacks the data and reading it raises, and in both cases
    \<open>ensureColumns\<close> ends with an error;
  \<^item> \<open>new_id\<close> is the identifier the store gives to a column it creates;
  \<^item> a created column is added after the existing ones with the title it was asked for, the
    list of columns is returned in the same order on every request, and a request that is not
    answered leaves the board as it is.

  The type of a column in a create request is one of the four of the table, or \<open>None\<close> where
  the request text has \<open>undefined\<close> in its place.
\<close>

datatype column_type = T_email | T_phone | T_status | T_long_text

record column =
  col_id :: jsstring
  col_title :: jsstring

record monday_board =
  board_columns :: "column list"
  api_calls :: nat

definition query_columns ::
  "(nat \<Rightarrow> bool) \<Rightarrow> monday_board \<Rightarrow> (error + column list) \<times> monday_board" where
  "query_columns up b =
     (if up (api_calls b) then Inr (board_columns b) else Inl Rejected,
      b\<lparr>api_calls := Suc (api_calls b)\<rparr>)"

definition create_column ::
  "(nat \<Rightarrow> bool) \<Rightarrow> (column list \<Rightarrow> jsstring \<Rightarrow> column_type option \<Rightarrow> jsstring) \<Rightarrow>
   jsstring \<Rightarrow> column_type option \<Rightarrow> monday_board \<Rightarrow> (error + jsstring) \<times> monday_board" where
  "create_column up new_id title ty b =
     (if up (api_calls b)
      then (let i = new_id (board_columns b) title ty
            in (Inr i,
                b\<lparr>board_columns := board_columns b @ [\<lparr>col_id = i, col_title = title\<rparr>],
                  api_calls := Suc (api_calls b)\<rparr>))
      else (Inl Rejected, b\<lparr>api_calls := Suc (api_calls b)\<rparr>))"

text \<open>The object literal \<open>required\<close>: its own properties, each with its title and type.\<close>

definition required :: "(jsstring \<times> jsstring \<times> column_type) list" where
  "required =
     [(js ''email'', js ''Email Address'', T_email),
      (js ''phone'', js ''Phone Number'', T_phone),
      (js ''service'', js ''Service'', T_status),
      (js ''note'', js ''Special Note'', T_long_text)]"

text \<open>
  The keys that \<open>for (const key in required)\<close> visits, each with \<open>required[key]\<close>: first the
  own properties of the table, in their order, then the enumerable properties it inherits.
  \<open>Object.prototype\<close> has an enumerable property only after the configuration endpoint has
  written \<open>allowedSenderEmail\<close> to it; the value found under that key is a string, which has
  no title and no type (\<open>None\<close>).
\<close>

definition for_in_required ::
  "app_state \<Rightarrow> (jsstring \<times> (jsstring \<times> column_type) option) list" where
  "for_in_required st =
     map (\<lambda>(key, entry). (key, Some entry)) required @
     (case proto_allowedSenderEmail st of
        None \<Rightarrow> []
      | Some v \<Rightarrow> [(js ''allowedSenderEmail'', None)])"

text \<open>
  The loop of \<open>ensureColumns\<close>: \<open>boardColumns\<close> is the list fetched before the loop and is not
  refreshed; \<open>m\<close> is the object \<open>map\<close>. For a key without a title the test
  \<open>c.title === undefined\<close> holds for no column, since every column has a string as its title,
  and the create request is written with the texts \<open>undefined\<close> for the title and the type.
\<close>

fun ensure_loop ::
  "(nat \<Rightarrow> bool) \<Rightarrow> (column list \<Rightarrow> jsstring \<Rightarrow> column_type option \<Rightarrow> jsstring) \<Rightarrow>
   column list \<Rightarrow> (jsstring \<times> (jsstring \<times> column_type) option) list \<Rightarrow>
   (jsstring \<rightharpoonup> jsstring) \<Rightarrow> monday_board \<Rightarrow>
   (error + (jsstring \<rightharpoonup> jsstring)) \<times> monday_board" where
  "ensure_loop up new_id boardColumns [] m b = (Inr m, b)"
| "ensure_loop up new_id boardColumns ((key, Some (title, ty)) # rest) m b =
     (case List.find (\<lambda>c. col_title c = title) boardColumns of
        Some found \<Rightarrow> ensure_loop up new_id boardColumns rest (m(key \<mapsto> col_id found)) b
      | None \<Rightarrow>
          (case create_column up new_id title (Some ty) b of
             (Inl e, b') \<Rightarrow> (Inl e, b')
           | (Inr i, b') \<Rightarrow> ensure_loop up new_id boardColumns rest (m(key \<mapsto> i)) b'))"
| "ensure_loop up new_id boardColumns ((key, None) # rest) m b =
     (case create_column up new_id (js ''undefined'') None b of
        (Inl e, b') \<Rightarrow> (Inl e, b')
      | (Inr i, b') \<Rightarrow> ensure_loop up new_id boardColumns rest (m(key \<mapsto> i)) b')"

text \<open>\<open>ensureColumns\<close>, run in the process state \<open>st\<close>.\<close>

definition ensureColumns ::
  "app_state \<Rightarrow> (nat \<Rightarrow> bool) \<Rightarrow> (column list \<Rightarrow> jsstring \<Rightarrow> column_type option \<Rightarrow> jsstring) \<Rightarrow>
   monday_board \<Rightarrow> (error + (jsstring \<rightharpoonup> jsstring)) \<times> monday_board" where
  "ensureColumns st up new_id b =
     (case query_columns up b of
        (Inl e, b') \<Rightarrow> (Inl e, b')
      | (Inr boardColumns, b') \<Rightarrow>
          ensure_loop up new_id boardColumns (for_in_required st) Map.empty b')"

section \<open>Example data\<close>

text \<open>
  A tenant with the mapping of the end-to-end scenarios, registered as board 17; the same
  state after \<open>Doc@Clinic.com\<close> was sent to the configuration endpoint; messages whose parser
  and outgoing calls succeed; a message that cannot be parsed.
\<close>

definition tenant0 :: tenant where
  "tenant0 =
     \<lparr>accessToken = js ''token'',
      columns = [Email \<mapsto> js ''colE'', Phone \<mapsto> js ''colP'', Service \<mapsto> js ''colS'',
                 Note \<mapsto> js ''colN''],
      allowedSenderEmail = None\<rparr>"

definition state0 :: app_state where
  "state0 = initial_state [js ''17'' \<mapsto> tenant0]"

definition state1 :: app_state where
  "state1 = snd (config_sender (\<lambda>s. s) (js ''17'') (Some (js ''Doc@Clinic.com'')) state0)"

definition message :: "nat \<Rightarrow> string \<Rightarrow> string \<Rightarrow> search_result" where
  "message u sender body =
     \<lparr>uid = u,
      parsed = Some \<lparr>from_address = Some (js sender), text_part = Some (js body),
                     html_as_text = []\<rparr>,
      createItem_ok = True, addFlags_ok = True\<rparr>"

definition unparsable :: "nat \<Rightarrow> search_result" where
  "unparsable u = \<lparr>uid = u, parsed = None, createItem_ok = True, addFlags_ok = True\<rparr>"

definition jane :: search_result where
  "jane = message 7 ''doc@clinic.com'' ''Jane Doe''"

definition scenario1 :: search_result where
  "scenario1 = message 7 ''doc@clinic.com''
     ''Jane Doe\<newline>Phone Number: 555-1234\<newline>Email Address: jane@x.com\<newline>Service: Checkup''"



definition state_written :: app_state where
  "state_written =
     snd (config_sender (\<lambda>s. s) (js ''__proto__'') (Some (js ''Evil@X.com'')) state0)"


section \<open>Evaluation rules and auxiliary facts\<close>

lemmas js_eval =
  js_def isLineTerminator_def isWhiteSpace_def trim_def canonicalize_def
  match_dot_plus_def match_at_def extractValue_def extractPatientName_def

lemmas model_eval =
  js_eval process_message_def claim_def addFlags_def createItem_def get_allowedSenderEmail_def
  body_text_def truthy_def config_sender_def inherited_truthy_def toLowerCase_def
  initial_state_def
  createItem_values_def column_key_def poll_cycle_def

lemma state1_eq:
  "state1 = state0\<lparr>boardStore :=
              [js ''17'' \<mapsto> tenant0\<lparr>allowedSenderEmail := Some (js ''doc@clinic.com'')\<rparr>]\<rparr>"
  by (simp add: state1_def state0_def tenant0_def model_eval)

lemma first_nonempty_of_map:
  "(case filter (\<lambda>l. l \<noteq> []) (map f xs) of [] \<Rightarrow> None | n # _ \<Rightarrow> Some n)
     = map_option f (List.find (\<lambda>l. f l \<noteq> []) xs)"
  by (induction xs) auto

lemma find_None_all: "(List.find P xs = None) = (\<forall>x \<in> set xs. \<not> P x)"
  by (induction xs) auto

lemma find_append:
  "List.find P (xs @ ys) = (case List.find P xs of Some x \<Rightarrow> Some x | None \<Rightarrow> List.find P ys)"
  by (induction xs) auto

lemma get_allowedSenderEmail_claim [simp]:
  "get_allowedSenderEmail (claim res st) cfg = get_allowedSenderEmail st cfg"
  by (simp add: get_allowedSenderEmail_def claim_def split: option.splits)

lemma boardStore_claim [simp]: "boardStore (claim res st) = boardStore st"
  by (simp add: claim_def)

section \<open>The dedup ledger\<close>

lemma created_uids_append: "created_uids (h @ h') = created_uids h @ created_uids h'"
  by (induction h rule: created_uids.induct) auto

lemma claimed_before_create_append:
  "claimed_before_create C (h @ h') =
     (claimed_before_create C h \<and> claimed_before_create (C \<union> claims_of h) h')"
  by (induction C h rule: claimed_before_create.induct) auto

lemma claims_of_append: "claims_of (h @ h') = claims_of h \<union> claims_of h'"
  by (induction h rule: claims_of.induct) auto

lemma advance_cases:
  assumes "advance boardId results st = (r, st')"
  shows "(r = None \<and> st' = st) \<or>
         (\<exists>res rest. r = Some \<lparr>cb_board = boardId, cb_current = res, cb_stage = AwaitParse, cb_rest = rest\<rparr>
            \<and> uid res \<notin> processedUids st \<and> st' = claim res st \<and> length rest < length results)"
  using assms
  by (induction results) (auto split: if_splits)


lemma parsing_uids_append [simp]: "parsing_uids (a @ b) = parsing_uids a @ parsing_uids b"
  by (simp add: parsing_uids_def)

lemma parsing_uids_Cons [simp]:
  "parsing_uids (cb # b) =
     (if cb_stage cb = AwaitParse then [uid (cb_current cb)] else []) @ parsing_uids b"
  by (simp add: parsing_uids_def)

lemma parsing_uids_Nil [simp]: "parsing_uids [] = []"
  by (simp add: parsing_uids_def)

lemma resume_cases:
  assumes "resume cb st = (r, st')"
  shows "(r = None \<and> st' = st)
       \<or> (\<exists>cb'. r = Some cb' \<and> cb_stage cb' = AwaitFlags \<and> processedUids st' = processedUids st
             \<and> history st' = history st @ [AddFlagsSeen (uid (cb_current cb))])
       \<or> (\<exists>cb' t q. cb_stage cb = AwaitParse \<and> r = Some cb' \<and> cb_stage cb' = AwaitCreate
             \<and> processedUids st' = processedUids st
             \<and> history st' = history st @ [CreateItemCall (uid (cb_current cb)) t q])
       \<or> advance (cb_board cb) (cb_rest cb) st = (r, st')"
  using assms
  by (auto simp: resume_def Let_def addFlags_def createItem_def
           split: stage.splits option.splits if_splits)

lemma advance_inv:
  assumes "process_inv \<lparr>app = st, suspended = a @ b\<rparr>"
      and "advance boardId results st = (r, st')"
  shows "process_inv \<lparr>app = st', suspended = a @ (case r of None \<Rightarrow> [] | Some cb \<Rightarrow> [cb]) @ b\<rparr>"
  using advance_cases [OF assms(2)] assms(1)
  by (auto simp: process_inv_def claim_def claimed_before_create_append claims_of_append
        created_uids_append)

lemma settle_inv:
  assumes inv: "process_inv \<lparr>app = st, suspended = a @ cb # b\<rparr>"
      and res: "resume cb st = (r, st')"
  shows "process_inv \<lparr>app = st', suspended = a @ (case r of None \<Rightarrow> [] | Some cb' \<Rightarrow> [cb']) @ b\<rparr>"
proof -
  from inv have inv': "process_inv \<lparr>app = st, suspended = a @ b\<rparr>"
    by (auto simp: process_inv_def)
  from resume_cases [OF res] show ?thesis
  proof (elim disjE exE conjE)
    assume "r = None" "st' = st"
    with inv' show ?thesis by simp
  next
    fix cb'
    assume "r = Some cb'" "cb_stage cb' = AwaitFlags" "processedUids st' = processedUids st"
      "history st' = history st @ [AddFlagsSeen (uid (cb_current cb))]"
    with inv' show ?thesis
      by (auto simp: process_inv_def claimed_before_create_append claims_of_append
            created_uids_append)
  next
    fix cb' t q
    assume "cb_stage cb = AwaitParse" "r = Some cb'" "cb_stage cb' = AwaitCreate"
      "processedUids st' = processedUids st"
      "history st' = history st @ [CreateItemCall (uid (cb_current cb)) t q]"
    with inv show ?thesis
      by (auto simp: process_inv_def claimed_before_create_append claims_of_append
            created_uids_append)
  next
    assume "advance (cb_board cb) (cb_rest cb) st = (r, st')"
    from advance_inv [OF inv' this] show ?thesis .
  qed
qed

lemma step_inv: "process_inv pr \<Longrightarrow> process_inv (step unicodeLower pr a)"
proof (cases a)
  case (TimerFires boardId search)
  assume i: "process_inv pr"
  show ?thesis
  proof (cases search)
    case None
    with i TimerFires show ?thesis by simp
  next
    case (Some results)
    obtain r st' where adv: "advance boardId results (app pr) = (r, st')"
      by (cases "advance boardId results (app pr)")
    from i have "process_inv \<lparr>app = app pr, suspended = suspended pr @ []\<rparr>"
      by (simp add: process_inv_def)
    from advance_inv [OF this adv] adv Some TimerFires show ?thesis
      by (cases r) (simp_all add: process_inv_def)
  qed
next
  case (Settles i)
  assume inv: "process_inv pr"
  show ?thesis
  proof (cases "i < length (suspended pr)")
    case False
    with inv Settles show ?thesis by simp
  next
    case True
    let ?cbs = "suspended pr"
    obtain r st' where res: "resume (?cbs ! i) (app pr) = (r, st')"
      by (cases "resume (?cbs ! i) (app pr)")
    from True have dec: "?cbs = take i ?cbs @ ?cbs ! i # drop (Suc i) ?cbs"
      by (rule id_take_nth_drop)
    from inv have "process_inv \<lparr>app = app pr, suspended = ?cbs\<rparr>"
      by (simp add: process_inv_def)
    with dec have "process_inv \<lparr>app = app pr, suspended = take i ?cbs @ ?cbs ! i # drop (Suc i) ?cbs\<rparr>"
      by simp
    from settle_inv [OF this res] res True Settles show ?thesis
      by (cases r) (simp_all add: upd_conv_take_nth_drop)
  qed
next
  case (ConfigSender boardId email)
  assume "process_inv pr"
  with ConfigSender show ?thesis
    by (auto simp: process_inv_def config_sender_def split: option.splits if_splits)
qed

lemma run_inv: "process_inv pr \<Longrightarrow> process_inv (run unicodeLower acts pr)"
  unfolding run_def by (induction acts arbitrary: pr) (auto simp: step_inv)

text \<open>
  Claim C1. In every run that starts with an empty ledger, whatever the searches deliver (the
  same uid any number of times, in the same or in different cycles, for any board), however
  the callbacks overlap and whatever fails, each record-creation call comes after the addition
  of its uid to \<open>processedUids\<close>, and no uid has more than one record-creation call. The
  additions listed in the history are the members of \<open>processedUids\<close>.
\<close>

theorem claim_precedes_single_create:
  "claimed_before_create {} (history (app (run unicodeLower acts (start registry))))
   \<and> distinct (created_uids (history (app (run unicodeLower acts (start registry)))))
   \<and> claims_of (history (app (run unicodeLower acts (start registry))))
       = processedUids (app (run unicodeLower acts (start registry)))"
proof -
  have "process_inv (start registry)"
    by (simp add: process_inv_def start_def initial_state_def)
  then have "process_inv (run unicodeLower acts (start registry))" by (rule run_inv)
  then show ?thesis by (simp add: process_inv_def)
qed

text \<open>
  The same message found by two cycles, the second cycle starting while the first waits for
  the parser.
\<close>

theorem claim_precedes_single_create_witness:
  "claimed_before_create {} (history (app (run (\<lambda>s. s)
      [ConfigSender (js ''17'') (Some (js ''doc@clinic.com'')),
       TimerFires (js ''17'') (Some [jane]),
       TimerFires (js ''17'') (Some [jane]),
       Settles 0, Settles 0, Settles 0] (start [js ''17'' \<mapsto> tenant0]))))
   \<and> distinct (created_uids (history (app (run (\<lambda>s. s)
      [ConfigSender (js ''17'') (Some (js ''doc@clinic.com'')),
       TimerFires (js ''17'') (Some [jane]),
       TimerFires (js ''17'') (Some [jane]),
       Settles 0, Settles 0, Settles 0] (start [js ''17'' \<mapsto> tenant0])))))
   \<and> claims_of (history (app (run (\<lambda>s. s)
      [ConfigSender (js ''17'') (Some (js ''doc@clinic.com'')),
       TimerFires (js ''17'') (Some [jane]),
       TimerFires (js ''17'') (Some [jane]),
       Settles 0, Settles 0, Settles 0] (start [js ''17'' \<mapsto> tenant0]))))
       = processedUids (app (run (\<lambda>s. s)
      [ConfigSender (js ''17'') (Some (js ''doc@clinic.com'')),
       TimerFires (js ''17'') (Some [jane]),
       TimerFires (js ''17'') (Some [jane]),
       Settles 0, Settles 0, Settles 0] (start [js ''17'' \<mapsto> tenant0])))"
  by (rule claim_precedes_single_create)

text \<open>
  In that run, and in the run where the message is found again by a later cycle after the
  flag call of the first cycle was rejected, one record-creation call is issued.
\<close>

lemma overlapping_cycles_create_once:
  "created_uids (history (app (run (\<lambda>s. s)
      [ConfigSender (js ''17'') (Some (js ''doc@clinic.com'')),
       TimerFires (js ''17'') (Some [jane]),
       TimerFires (js ''17'') (Some [jane]),
       Settles 0, Settles 0, Settles 0] (start [js ''17'' \<mapsto> tenant0])))) = [7]"
  by (simp add: run_def start_def resume_def jane_def tenant0_def message_def model_eval Let_def)

lemma redelivered_message_created_once:
  "created_uids (history (app (run (\<lambda>s. s)
      [ConfigSender (js ''17'') (Some (js ''doc@clinic.com'')),
       TimerFires (js ''17'') (Some [jane\<lparr>addFlags_ok := False\<rparr>]),
       Settles 0, Settles 0, Settles 0,
       TimerFires (js ''17'') (Some [jane])] (start [js ''17'' \<mapsto> tenant0])))) = [7]"
  by (simp add: run_def start_def resume_def jane_def tenant0_def message_def model_eval Let_def)

section \<open>Callbacks that do not overlap\<close>

text \<open>
  The loop over the results, as \<open>poll_loop\<close> has it, is the callback resumed until it ends
  with nothing in between: the two descriptions of the loop body agree, and a poll cycle
  that runs alone is one of the runs of the process.
\<close>

lemma drains_poll_loop:
  "drains (advance boardId results st) (snd (poll_loop boardId results st))"
proof (induction results arbitrary: st)
  case Nil
  show ?case by (simp add: drains.ended)
next
  case (Cons res results)
  show ?case
  proof (cases "uid res \<in> processedUids st")
    case True
    with Cons.IH [of st] show ?thesis by (simp add: process_message_def)
  next
    case False
    let ?cb = "\<lparr>cb_board = boardId, cb_current = res, cb_stage = AwaitParse, cb_rest = results\<rparr>"
    let ?st1 = "claim res st"
    have flags: "drains (Some (?cb\<lparr>cb_stage := AwaitFlags\<rparr>), snd (addFlags res s))
                   (snd (case addFlags res s of (Some e, s') \<Rightarrow> (Some e, s')
                         | (None, s') \<Rightarrow> poll_loop boardId results s'))" for s
      using Cons.IH [of "snd (addFlags res s)"]
      by (auto intro!: drains.settled simp: resume_def addFlags_def drains.ended)
    have "drains (resume ?cb ?st1) (snd (poll_loop boardId (res # results) st))"
    proof (cases "parsed res")
      case None
      with False show ?thesis by (simp add: resume_def process_message_def drains.ended)
    next
      case (Some p)
      show ?thesis
      proof (cases "boardStore st boardId")
        case None
        with Some False show ?thesis by (simp add: resume_def process_message_def drains.ended)
      next
        case cfg: (Some cfg)
        show ?thesis
        proof (cases "\<not> truthy (get_allowedSenderEmail st cfg) \<or> from_address p \<noteq> get_allowedSenderEmail st cfg")
          case True
          with Some cfg False flags [of ?st1] show ?thesis
            by (auto simp: resume_def process_message_def Let_def split: prod.splits option.splits)
        next
          case acc: False
          show ?thesis
          proof (cases "extractPatientName (body_text p)")
            case None
            with Some cfg False acc Cons.IH [of ?st1] show ?thesis
              by (simp add: resume_def process_message_def Let_def)
          next
            case name: (Some name)
            obtain st2 where cr:
              "createItem res boardId name (extractValue (js ''Email Address'') (body_text p))
                 (extractValue (js ''Phone Number'') (body_text p))
                 (extractValue (js ''Service'') (body_text p))
                 (extractValue (js ''Special Note'') (body_text p)) ?st1 =
               (if createItem_ok res then None else Some Rejected, st2)"
              using cfg by (simp add: createItem_def Let_def)
            let ?F = "\<lambda>s. case addFlags res s of (Some e, s') \<Rightarrow> (Some e, s')
                        | (None, s') \<Rightarrow> poll_loop boardId results s'"
            have r1: "resume ?cb ?st1 = (Some (?cb\<lparr>cb_stage := AwaitCreate\<rparr>), st2)"
              using Some cfg acc name cr by (simp add: resume_def Let_def)
            show ?thesis
            proof (cases "createItem_ok res")
              case True
              with Some cfg False acc name cr
              have pm: "poll_loop boardId (res # results) st = ?F st2"
                by (simp add: process_message_def Let_def)
              from True have r2: "resume (?cb\<lparr>cb_stage := AwaitCreate\<rparr>) st2 =
                  (Some (?cb\<lparr>cb_stage := AwaitFlags\<rparr>), snd (addFlags res st2))"
                by (simp add: resume_def)
              from flags [of st2] have "drains (resume (?cb\<lparr>cb_stage := AwaitCreate\<rparr>) st2) (snd (?F st2))"
                by (simp only: r2)
              then have "drains (Some (?cb\<lparr>cb_stage := AwaitCreate\<rparr>), st2) (snd (?F st2))"
                by (rule drains.settled)
              then show ?thesis by (simp only: r1 pm)
            next
              case nok: False
              with Some cfg False acc name cr
              have pm: "snd (poll_loop boardId (res # results) st) = st2"
                by (simp add: process_message_def Let_def)
              from nok have r2: "resume (?cb\<lparr>cb_stage := AwaitCreate\<rparr>) st2 = (None, st2)"
                by (simp add: resume_def)
              have "drains (resume (?cb\<lparr>cb_stage := AwaitCreate\<rparr>) st2) st2"
                by (simp only: r2 drains.ended)
              then have "drains (Some (?cb\<lparr>cb_stage := AwaitCreate\<rparr>), st2) st2"
                by (rule drains.settled)
              then show ?thesis by (simp only: r1 pm)
            qed
          qed
        qed
      qed
    qed
    with False show ?thesis by (simp add: drains.settled)
  qed
qed


lemma run_Cons: "run U (x # xs) pr = run U xs (step U pr x)"
  by (simp add: run_def)

lemma drains_run:
  assumes "drains x st'"
  shows "\<exists>n. run U (replicate n (Settles 0))
               \<lparr>app = snd x, suspended = (case fst x of None \<Rightarrow> [] | Some cb \<Rightarrow> [cb])\<rparr>
             = \<lparr>app = st', suspended = []\<rparr>"
  using assms
proof (induction rule: drains.induct)
  case (ended st)
  have "run U (replicate 0 (Settles 0)) \<lparr>app = st, suspended = []\<rparr> = \<lparr>app = st, suspended = []\<rparr>"
    by (simp add: run_def)
  then show ?case by (intro exI [of _ 0]) simp
next
  case (settled cb st st')
  then obtain n where n: "run U (replicate n (Settles 0))
       \<lparr>app = snd (resume cb st),
          suspended = (case fst (resume cb st) of None \<Rightarrow> [] | Some cb' \<Rightarrow> [cb'])\<rparr>
       = \<lparr>app = st', suspended = []\<rparr>" by blast
  have "step U \<lparr>app = st, suspended = [cb]\<rparr> (Settles 0) =
          \<lparr>app = snd (resume cb st),
            suspended = (case fst (resume cb st) of None \<Rightarrow> [] | Some cb' \<Rightarrow> [cb'])\<rparr>"
    by (cases "resume cb st") (auto split: option.splits)
  with n have "run U (replicate (Suc n) (Settles 0)) \<lparr>app = st, suspended = [cb]\<rparr>
                 = \<lparr>app = st', suspended = []\<rparr>"
    by (simp add: run_Cons)
  then show ?case by (intro exI [of _ "Suc n"]) simp
qed

lemma poll_cycle_is_a_run:
  "\<exists>n. run U (TimerFires boardId search # replicate n (Settles 0)) \<lparr>app = st, suspended = []\<rparr>
        = \<lparr>app = snd (poll_cycle boardId search st), suspended = []\<rparr>"
proof (cases search)
  case None
  have "run U (TimerFires boardId None # replicate 0 (Settles 0)) \<lparr>app = st, suspended = []\<rparr>
        = \<lparr>app = snd (poll_cycle boardId None st), suspended = []\<rparr>"
    by (simp add: run_def poll_cycle_def)
  with None show ?thesis by blast
next
  case (Some results)
  from drains_run [OF drains_poll_loop, of U boardId results st] obtain n where
    n: "run U (replicate n (Settles 0))
          \<lparr>app = snd (advance boardId results st),
             suspended = (case fst (advance boardId results st) of None \<Rightarrow> [] | Some cb \<Rightarrow> [cb])\<rparr>
        = \<lparr>app = snd (poll_loop boardId results st), suspended = []\<rparr>" by blast
  have "step U \<lparr>app = st, suspended = []\<rparr> (TimerFires boardId (Some results)) =
          \<lparr>app = snd (advance boardId results st),
             suspended = (case fst (advance boardId results st) of None \<Rightarrow> [] | Some cb \<Rightarrow> [cb])\<rparr>"
    by (cases "advance boardId results st") (auto split: option.splits)
  with n Some have "run U (TimerFires boardId search # replicate n (Settles 0)) \<lparr>app = st, suspended = []\<rparr>
        = \<lparr>app = snd (poll_cycle boardId search st), suspended = []\<rparr>"
    by (simp add: run_Cons poll_cycle_def)
  then show ?thesis by blast
qed

section \<open>Field extraction\<close>

text \<open>
  Claim C2. The name extracted from a text is the first of its lines (the pieces between
  line feeds) that is not blank after trimming, trimmed; it is absent exactly when every
  line is blank after trimming.
\<close>

theorem extractPatientName_first_nonblank_line:
  "extractPatientName text
     = map_option trim (List.find (\<lambda>l. trim l \<noteq> []) (split_nl text))
   \<and> ((extractPatientName text = None) = (\<forall>l \<in> set (split_nl text). trim l = []))"
proof -
  have eq: "extractPatientName text
      = map_option trim (List.find (\<lambda>l. trim l \<noteq> []) (split_nl text))"
    unfolding extractPatientName_def by (rule first_nonempty_of_map)
  have "(extractPatientName text = None) = (\<forall>l \<in> set (split_nl text). trim l = [])"
    by (simp add: eq find_None_all)
  with eq show ?thesis by simp
qed

theorem extractPatientName_first_nonblank_line_witness:
  "extractPatientName (js '' \<newline>  Jane Doe \<newline>Service: Checkup'') = Some (js ''Jane Doe'')
   \<and> extractPatientName (js ''  \<newline> \<newline>'') = None"
  using extractPatientName_first_nonblank_line [of "js '' \<newline>  Jane Doe \<newline>Service: Checkup''"]
        extractPatientName_first_nonblank_line [of "js ''  \<newline> \<newline>''"]
  by (simp add: js_def trim_def isWhiteSpace_def isLineTerminator_def)

text \<open>
  Claim C3. A labelled line yields the trimmed remainder of that line, a text without such a
  line yields nothing, and one field does not depend on another. The code does not keep to
  the line: the white space after the colon may include line breaks, so a label whose line
  ends after the colon takes the following line as its value. Here the phone number is left
  empty and the extracted phone is the whole e-mail line.
\<close>

theorem extractValue_takes_next_line:
  "extractValue (js ''Phone Number'')
     (js ''Jane Doe\<newline>Phone Number:\<newline>Email Address: jane@x.com'')
   = Some (js ''Email Address: jane@x.com'')"
  by (simp add: js_eval)

section \<open>Sender policy\<close>

text \<open>
  The test \<open>!allowedSender || from !== allowedSender\<close> holds when the tenant record has no
  allowed sender and \<open>Object.prototype\<close> supplies none, and when the tenant's allowed sender is
  the empty string or is not the very string of the sender address.
\<close>

lemma not_allowed:
  assumes "case allowedSenderEmail cfg of
             None \<Rightarrow> proto_allowedSenderEmail st = None
           | Some s \<Rightarrow> s = [] \<or> from_address p \<noteq> Some s"
  shows "\<not> truthy (get_allowedSenderEmail st cfg)
         \<or> from_address p \<noteq> get_allowedSenderEmail st cfg"
  using assms by (auto simp: get_allowedSenderEmail_def truthy_def split: option.splits)

text \<open>
  Claim C4, as the code has it. A claimed message whose parser has finished is rejected when, at
  that moment, the tenant has no allowed sender of its own (in a process in which
  \<open>Object.prototype\<close> has none either), or has the empty string, or has a string that is not
  the very string of the sender address. Then the call that sets the flag Seen is issued, no
  record-creation call is made, and the callback waits for the flag call. When that call
  resolves the callback goes on with the entries that are left; when the mailbox rejects it
  the callback ends there.
\<close>

theorem sender_rejected_marks_seen_and_skips:
  assumes "cb_stage cb = AwaitParse" and "parsed (cb_current cb) = Some p"
      and "boardStore st (cb_board cb) = Some cfg"
      and "case allowedSenderEmail cfg of
             None \<Rightarrow> proto_allowedSenderEmail st = None
           | Some s \<Rightarrow> s = [] \<or> from_address p \<noteq> Some s"
  shows "resume cb st =
           (Some (cb\<lparr>cb_stage := AwaitFlags\<rparr>),
            st\<lparr>history := history st @ [AddFlagsSeen (uid (cb_current cb))]\<rparr>)
         \<and> resume (cb\<lparr>cb_stage := AwaitFlags\<rparr>) st' =
           (if addFlags_ok (cb_current cb) then advance (cb_board cb) (cb_rest cb) st'
            else (None, st'))"
proof -
  from not_allowed [OF assms(4)] assms(1-3)
  have "resume cb st = (Some (cb\<lparr>cb_stage := AwaitFlags\<rparr>), snd (addFlags (cb_current cb) st))"
    by (auto simp: resume_def Let_def)
  moreover have "resume (cb\<lparr>cb_stage := AwaitFlags\<rparr>) st' =
           (if addFlags_ok (cb_current cb) then advance (cb_board cb) (cb_rest cb) st'
            else (None, st'))"
    by (simp add: resume_def)
  ultimately show ?thesis by (simp add: addFlags_def)
qed

text \<open>
  The stored address is lower case, the incoming one is compared as it is: after
  \<open>Doc@Clinic.com\<close> was configured, a message from \<open>Doc@Clinic.com\<close> is rejected and flagged,
  and the callback goes on to the next message.
\<close>

theorem sender_rejected_marks_seen_and_skips_witness:
  "resume \<lparr>cb_board = js ''17'', cb_current = message 4 ''Doc@Clinic.com'' ''Jane Doe'',
           cb_stage = AwaitParse, cb_rest = [jane]\<rparr>
     (state1\<lparr>processedUids := {4}, history := [Claim 4]\<rparr>) =
     (Some \<lparr>cb_board = js ''17'', cb_current = message 4 ''Doc@Clinic.com'' ''Jane Doe'',
            cb_stage = AwaitFlags, cb_rest = [jane]\<rparr>,
      state1\<lparr>processedUids := {4}, history := [Claim 4, AddFlagsSeen 4]\<rparr>)
   \<and> resume \<lparr>cb_board = js ''17'', cb_current = message 4 ''Doc@Clinic.com'' ''Jane Doe'',
             cb_stage = AwaitFlags, cb_rest = [jane]\<rparr>
       (state1\<lparr>processedUids := {4}, history := [Claim 4, AddFlagsSeen 4]\<rparr>) =
     (Some \<lparr>cb_board = js ''17'', cb_current = jane, cb_stage = AwaitParse, cb_rest = []\<rparr>,
      state1\<lparr>processedUids := {7, 4}, history := [Claim 4, AddFlagsSeen 4, Claim 7]\<rparr>)"
proof -
  let ?m = "message 4 ''Doc@Clinic.com'' ''Jane Doe''"
  let ?cb = "\<lparr>cb_board = js ''17'', cb_current = ?m, cb_stage = AwaitParse, cb_rest = [jane]\<rparr>"
  let ?cfg = "tenant0\<lparr>allowedSenderEmail := Some (js ''doc@clinic.com'')\<rparr>"
  let ?p = "\<lparr>from_address = Some (js ''Doc@Clinic.com''), text_part = Some (js ''Jane Doe''),
             html_as_text = []\<rparr>"
  let ?st = "state1\<lparr>processedUids := {4}, history := [Claim 4]\<rparr>"
  let ?st' = "state1\<lparr>processedUids := {4}, history := [Claim 4, AddFlagsSeen 4]\<rparr>"
  have 1: "cb_stage ?cb = AwaitParse" by simp
  have 2: "parsed (cb_current ?cb) = Some ?p" by (simp add: message_def)
  have 3: "boardStore ?st (cb_board ?cb) = Some ?cfg" by (simp add: state1_eq)
  have 4: "case allowedSenderEmail ?cfg of
             None \<Rightarrow> proto_allowedSenderEmail ?st = None
           | Some s \<Rightarrow> s = [] \<or> from_address ?p \<noteq> Some s"
    by (simp add: js_def)
  have 5: "advance (js ''17'') [jane] ?st' =
     (Some \<lparr>cb_board = js ''17'', cb_current = jane, cb_stage = AwaitParse, cb_rest = []\<rparr>,
      state1\<lparr>processedUids := {7, 4}, history := [Claim 4, AddFlagsSeen 4, Claim 7]\<rparr>)"
    by (simp add: jane_def message_def claim_def)
  from sender_rejected_marks_seen_and_skips [OF 1 2 3 4, of ?st'] 5
  show ?thesis by (simp add: message_def)
qed

text \<open>In the loop that runs alone, the rejected flag call is the error that ends the cycle.\<close>

lemma sender_rejected_in_plain_loop:
  assumes "uid res \<notin> processedUids st" and "parsed res = Some p"
      and "boardStore st boardId = Some cfg"
      and "case allowedSenderEmail cfg of
             None \<Rightarrow> proto_allowedSenderEmail st = None
           | Some s \<Rightarrow> s = [] \<or> from_address p \<noteq> Some s"
  shows "process_message boardId res st =
           (if addFlags_ok res then None else Some Rejected,
            st\<lparr>processedUids := insert (uid res) (processedUids st),
               history := history st @ [Claim (uid res), AddFlagsSeen (uid res)]\<rparr>)"
proof -
  from not_allowed [OF assms(4)] assms(1-3)
  have "process_message boardId res st = addFlags res (claim res st)"
    by (auto simp: process_message_def Let_def)
  then show ?thesis by (simp add: addFlags_def claim_def)
qed

text \<open>
  Claim C4, as stated, fails in two ways. A message is rejected for its sender and the
  mailbox rejects the flag call: the error ends the cycle, and the message behind it is not
  looked at. And a tenant without a configured sender, in the process in which the
  configuration endpoint has written to \<open>Object.prototype\<close>, takes the message from the
  address written there and issues a record-creation call.
\<close>

theorem sender_policy_fails:
  "poll_cycle (js ''17'') (Some [(message 4 ''x@y.z'' ''Joe'')\<lparr>addFlags_ok := False\<rparr>, jane]) state1 =
     (Some Rejected, state1\<lparr>processedUids := {4}, history := [Claim 4, AddFlagsSeen 4]\<rparr>)
   \<and> boardStore state_written (js ''17'') = Some tenant0
   \<and> allowedSenderEmail tenant0 = None
   \<and> created_uids (history (snd (process_message (js ''17'')
        (message 9 ''evil@x.com'' ''Jane Doe'') state_written))) = [9]"
  by (simp add: state1_eq state_written_def state0_def tenant0_def message_def model_eval
        Object_prototype_keys_def)


section \<open>Messages without a name\<close>

text \<open>
  Claim C5. A message from the allowed sender whose body has no non-blank line leads to no
  record-creation call and no error, and is marked as seen. The code makes no call at all for
  such a message: it leaves the loop body at \<open>if (!name) continue\<close>, before the flag call that
  the other two ways out of the body make, so the message stays unseen in the mailbox.
\<close>

theorem nameless_message_left_unseen:
  assumes "uid res \<notin> processedUids st" and "parsed res = Some p"
      and "boardStore st boardId = Some cfg"
      and "truthy (get_allowedSenderEmail st cfg)"
      and "from_address p = get_allowedSenderEmail st cfg"
      and "extractPatientName (body_text p) = None"
  shows "process_message boardId res st =
           (None, st\<lparr>processedUids := insert (uid res) (processedUids st),
                     history := history st @ [Claim (uid res)]\<rparr>)"
proof -
  from assms have "process_message boardId res st = (None, claim res st)"
    by (simp add: process_message_def Let_def)
  then show ?thesis by (simp add: claim_def)
qed

text \<open>The failing input: the allowed sender writes a body of blank lines.\<close>

theorem nameless_message_left_unseen_witness:
  "process_message (js ''17'') (message 5 ''doc@clinic.com'' '' \<newline>  \<newline>'') state1 =
     (None, state1\<lparr>processedUids := {5}, history := [Claim 5]\<rparr>)"
proof -
  let ?cfg = "tenant0\<lparr>allowedSenderEmail := Some (js ''doc@clinic.com'')\<rparr>"
  let ?p = "\<lparr>from_address = Some (js ''doc@clinic.com''),
             text_part = Some (js '' \<newline>  \<newline>''), html_as_text = []\<rparr>"
  have 1: "uid (message 5 ''doc@clinic.com'' '' \<newline>  \<newline>'') \<notin> processedUids state1"
    by (simp add: state1_eq state0_def initial_state_def message_def)
  have 2: "parsed (message 5 ''doc@clinic.com'' '' \<newline>  \<newline>'') = Some ?p"
    by (simp add: message_def)
  have 3: "boardStore state1 (js ''17'') = Some ?cfg"
    by (simp add: state1_eq)
  have 4: "truthy (get_allowedSenderEmail state1 ?cfg)"
    by (simp add: get_allowedSenderEmail_def truthy_def js_def)
  have 5: "from_address ?p = get_allowedSenderEmail state1 ?cfg"
    by (simp add: get_allowedSenderEmail_def)
  have 6: "extractPatientName (body_text ?p) = None"
    by (simp add: body_text_def truthy_def js_eval)
  show ?thesis
    using nameless_message_left_unseen [OF 1 2 3 4 5 6]
    by (simp add: message_def state1_eq state0_def initial_state_def)
qed

section \<open>The payload of the record-creation call\<close>

text \<open>
  Claim C6, as the code has it. With four distinct column identifiers, the call that
  \<open>createItem\<close> issues carries the request text built from the board identifier, the name in
  the place of \<open>item_name\<close>, and as column values exactly the fields whose extracted value is a
  string that is not empty (a field that is \<open>null\<close> or the empty string is left out), each in
  the encoding of its kind: the e-mail as \<open>email\<close> and \<open>text\<close>, the phone as \<open>phone\<close> with
  \<open>countryShortName\<close> \<open>IN\<close>, the service as \<open>label\<close>, the note as the string itself.
\<close>

theorem createItem_payload:
  assumes "boardStore st boardId = Some cfg"
      and "distinct [column_key cfg Email, column_key cfg Phone, column_key cfg Service,
                     column_key cfg Note]"
  shows "createItem res boardId name email phone service note st =
           (if createItem_ok res then None else Some Rejected,
            st\<lparr>history := history st @
                 [CreateItemCall (uid res) (accessToken cfg)
                    (createItem_query boardId name
                       ((if truthy email
                         then [(column_key cfg Email,
                                JObject [(js ''email'', JString (the email)),
                                         (js ''text'', JString (the email))])]
                         else []) @
                        (if truthy phone
                         then [(column_key cfg Phone,
                                JObject [(js ''phone'', JString (the phone)),
                                         (js ''countryShortName'', JString (js ''IN''))])]
                         else []) @
                        (if truthy service
                         then [(column_key cfg Service,
                                JObject [(js ''label'', JString (the service))])]
                         else []) @
                        (if truthy note
                         then [(column_key cfg Note, JString (the note))]
                         else [])))]\<rparr>)"
proof -
  have "createItem_values cfg email phone service note =
          (if truthy email
           then [(column_key cfg Email,
                  JObject [(js ''email'', JString (the email)), (js ''text'', JString (the email))])]
           else []) @
          (if truthy phone
           then [(column_key cfg Phone,
                  JObject [(js ''phone'', JString (the phone)),
                           (js ''countryShortName'', JString (js ''IN''))])]
           else []) @
          (if truthy service
           then [(column_key cfg Service, JObject [(js ''label'', JString (the service))])]
           else []) @
          (if truthy note then [(column_key cfg Note, JString (the note))] else [])"
    using assms(2) by (simp add: createItem_values_def Let_def)
  with assms(1) show ?thesis by (simp add: createItem_def Let_def)
qed

text \<open>The first end-to-end scenario: e-mail, phone and service are sent, the note is left out.\<close>

theorem createItem_payload_witness:
  "createItem scenario1 (js ''17'') (js ''Jane Doe'') (Some (js ''jane@x.com''))
       (Some (js ''555-1234'')) (Some (js ''Checkup'')) None state0 =
     (None,
      state0\<lparr>history :=
        [CreateItemCall 7 (js ''token'')
           (createItem_query (js ''17'') (js ''Jane Doe'')
              [(js ''colE'', JObject [(js ''email'', JString (js ''jane@x.com'')),
                                      (js ''text'', JString (js ''jane@x.com''))]),
               (js ''colP'', JObject [(js ''phone'', JString (js ''555-1234'')),
                                      (js ''countryShortName'', JString (js ''IN''))]),
               (js ''colS'', JObject [(js ''label'', JString (js ''Checkup''))])])]\<rparr>)"
proof -
  have 1: "boardStore state0 (js ''17'') = Some tenant0"
    by (simp add: state0_def initial_state_def)
  have 2: "distinct [column_key tenant0 Email, column_key tenant0 Phone,
                     column_key tenant0 Service, column_key tenant0 Note]"
    by (simp add: column_key_def tenant0_def js_def)
  have 3: "column_key tenant0 Email = js ''colE''" "column_key tenant0 Phone = js ''colP''"
    "column_key tenant0 Service = js ''colS''" "accessToken tenant0 = js ''token''"
    by (simp_all add: column_key_def tenant0_def)
  show ?thesis
    using createItem_payload [OF 1 2, of scenario1 "js ''Jane Doe''" "Some (js ''jane@x.com'')"
        "Some (js ''555-1234'')" "Some (js ''Checkup'')" None]
    by (simp add: 3 truthy_def js_def scenario1_def message_def state0_def initial_state_def)
qed

text \<open>
  Claim C6, as stated, fails for a value that is present and empty: a service line with
  nothing but white space after the colon gives the empty string, not \<open>null\<close>, and the
  payload leaves the field out.
\<close>

theorem empty_value_omitted:
  "extractValue (js ''Service'') (js ''Jane Doe\<newline>Service: \<newline>'') = Some []
   \<and> createItem_values tenant0 None None (Some []) None = []"
  by (simp add: js_eval createItem_values_def truthy_def)

section \<open>Schema resolution when onboarding is run again\<close>

lemma create_column_columns:
  "create_column up new_id title ty b = (Inr i, b') \<Longrightarrow>
   board_columns b' = board_columns b @ [\<lparr>col_id = i, col_title = title\<rparr>]"
  by (auto simp: create_column_def Let_def split: if_splits)







text \<open>
  In a process in which nothing has been written to \<open>Object.prototype\<close>, the loop visits the
  four keys of the table, and running it again on the columns that a successful run has left
  finds every title and creates nothing. \<open>P\<close> stands for the columns created before this part
  of the loop, \<open>cs\<close> for the ones this part creates.
\<close>

lemma ensure_loop_rerun:
  assumes "ensure_loop up new_id snap (map (\<lambda>(key, entry). (key, Some entry)) rs) m b
             = (Inr m', b')"
      and "distinct (map (\<lambda>r. fst (snd r)) rs)"
  shows "\<exists>cs. board_columns b' = board_columns b @ cs \<and>
           (\<forall>P b2. (\<forall>c\<in>set P. col_title c \<notin> (\<lambda>r. fst (snd r)) ` set rs) \<longrightarrow>
              ensure_loop up new_id (snap @ P @ cs)
                (map (\<lambda>(key, entry). (key, Some entry)) rs) m b2 = (Inr m', b2))"
  using assms
proof (induction rs arbitrary: m b)
  case Nil
  then show ?case by simp
next
  case (Cons r rs)
  let ?own = "map (\<lambda>(key, entry). (key, Some entry))"
  obtain key title ty where r: "r = (key, title, ty)" by (cases r) auto
  from Cons.prems(2) r have d: "distinct (map (\<lambda>r. fst (snd r)) rs)"
    and nt: "title \<notin> (\<lambda>r. fst (snd r)) ` set rs" by auto
  show ?case
  proof (cases "List.find (\<lambda>c. col_title c = title) snap")
    case (Some found)
    with Cons.prems(1) r
    have run: "ensure_loop up new_id snap (?own rs) (m(key \<mapsto> col_id found)) b = (Inr m', b')"
      by simp
    from Cons.IH [OF run d] obtain cs where
      cs: "board_columns b' = board_columns b @ cs"
      and re: "\<And>P b2. (\<forall>c\<in>set P. col_title c \<notin> (\<lambda>r. fst (snd r)) ` set rs) \<Longrightarrow>
              ensure_loop up new_id (snap @ P @ cs) (?own rs) (m(key \<mapsto> col_id found)) b2
                = (Inr m', b2)"
      by blast
    have "ensure_loop up new_id (snap @ P @ cs) (?own (r # rs)) m b2 = (Inr m', b2)"
      if "\<forall>c\<in>set P. col_title c \<notin> (\<lambda>r. fst (snd r)) ` set (r # rs)" for P b2
    proof -
      from that have "\<forall>c\<in>set P. col_title c \<notin> (\<lambda>r. fst (snd r)) ` set rs" by auto
      from re [OF this] show ?thesis using Some r by (simp add: find_append)
    qed
    with cs show ?thesis by blast
  next
    case None
    with Cons.prems(1) r obtain i b1 where
      cr: "create_column up new_id title (Some ty) b = (Inr i, b1)"
      and run: "ensure_loop up new_id snap (?own rs) (m(key \<mapsto> i)) b1 = (Inr m', b')"
      by (auto split: prod.splits sum.splits)
    from create_column_columns [OF cr]
    have b1: "board_columns b1 = board_columns b @ [\<lparr>col_id = i, col_title = title\<rparr>]" .
    from Cons.IH [OF run d] obtain cs where
      cs: "board_columns b' = board_columns b1 @ cs"
      and re: "\<And>P b2. (\<forall>c\<in>set P. col_title c \<notin> (\<lambda>r. fst (snd r)) ` set rs) \<Longrightarrow>
              ensure_loop up new_id (snap @ P @ cs) (?own rs) (m(key \<mapsto> i)) b2 = (Inr m', b2)"
      by blast
    let ?c = "\<lparr>col_id = i, col_title = title\<rparr>"
    have "ensure_loop up new_id (snap @ P @ (?c # cs)) (?own (r # rs)) m b2 = (Inr m', b2)"
      if P: "\<forall>c\<in>set P. col_title c \<notin> (\<lambda>r. fst (snd r)) ` set (r # rs)" for P b2
    proof -
      from P r have notP: "List.find (\<lambda>c. col_title c = title) P = None"
        by (auto simp: find_None_all)
      from P nt have "\<forall>c\<in>set (P @ [?c]). col_title c \<notin> (\<lambda>r. fst (snd r)) ` set rs" by auto
      from re [OF this] show ?thesis using None notP r by (simp add: find_append)
    qed
    moreover from cs b1 have "board_columns b' = board_columns b @ (?c # cs)" by simp
    ultimately show ?thesis by blast
  qed
qed

lemma required_titles_distinct: "distinct (map (\<lambda>r. fst (snd r)) required)"
  by (simp add: required_def js_def)

text \<open>
  So there a second run, the store answering the one request it takes, returns the same
  mapping and leaves the columns of the board as they are.
\<close>

lemma ensureColumns_rerun_creates_nothing:
  assumes "proto_allowedSenderEmail st = None" and "proto_allowedSenderEmail st' = None"
      and "ensureColumns st up new_id b = (Inr m, b')" and "up (api_calls b')"
  shows "ensureColumns st' up new_id b' = (Inr m, b'\<lparr>api_calls := Suc (api_calls b')\<rparr>)"
proof -
  let ?own = "map (\<lambda>(key, entry). (key, Some entry)) required"
  from assms(1,3) have
    run: "ensure_loop up new_id (board_columns b) ?own Map.empty
            (b\<lparr>api_calls := Suc (api_calls b)\<rparr>) = (Inr m, b')"
    by (auto simp: ensureColumns_def query_columns_def for_in_required_def split: if_splits)
  from ensure_loop_rerun [OF run required_titles_distinct] obtain cs where
    cs: "board_columns b' = board_columns b @ cs"
    and re: "\<And>P b2. (\<forall>c\<in>set P. col_title c \<notin> (\<lambda>r. fst (snd r)) ` set required) \<Longrightarrow>
       ensure_loop up new_id (board_columns b @ P @ cs) ?own Map.empty b2 = (Inr m, b2)"
    by auto
  from re [of "[]"] cs have
    "ensure_loop up new_id (board_columns b') ?own Map.empty b2 = (Inr m, b2)" for b2
    by simp
  with assms(2,4) show ?thesis
    by (simp add: ensureColumns_def query_columns_def for_in_required_def)
qed


section \<open>Failures inside a poll cycle\<close>

lemma poll_loop_append:
  "poll_loop boardId (xs @ ys) st =
     (case poll_loop boardId xs st of
        (Some e, st') \<Rightarrow> (Some e, st')
      | (None, st') \<Rightarrow> poll_loop boardId ys st')"
  by (induction xs arbitrary: st) (auto split: prod.splits option.splits)

lemma process_message_error_claimed:
  "process_message boardId res st = (Some e, st') \<Longrightarrow> uid res \<in> processedUids st'"
  by (auto simp: process_message_def claim_def addFlags_def createItem_def Let_def
           split: option.splits if_splits prod.splits)

text \<open>
  Claim C8, as the code has it. A failure while one message is processed is not caught: it
  ends the poll cycle at that message with the error. The messages before it have been
  processed as they would be without it, the messages after it are not looked at in this
  cycle (the outcome and the state do not depend on them), and the failing message stays in
  \<open>processedUids\<close>.
\<close>

theorem failure_ends_poll_cycle:
  assumes "poll_loop boardId before st = (None, st1)"
      and "process_message boardId res st1 = (Some e, st2)"
  shows "poll_cycle boardId (Some (before @ res # rest)) st = (Some e, st2)
         \<and> uid res \<in> processedUids st2"
  using assms process_message_error_claimed [OF assms(2)]
  by (simp add: poll_cycle_def poll_loop_append)

theorem failure_ends_poll_cycle_witness:
  "poll_cycle (js ''17'')
     (Some ([message 3 ''x@y.z'' ''Joe''] @ unparsable 1 #
            [message 2 ''doc@clinic.com'' ''Jane Doe''])) state1 =
     (Some Rejected,
      state1\<lparr>processedUids := {1, 3}, history := [Claim 3, AddFlagsSeen 3, Claim 1]\<rparr>)
   \<and> uid (unparsable 1) \<in> {1, 3::nat}"
proof -
  let ?st1 = "state1\<lparr>processedUids := {3}, history := [Claim 3, AddFlagsSeen 3]\<rparr>"
  let ?st2 = "state1\<lparr>processedUids := {1, 3}, history := [Claim 3, AddFlagsSeen 3, Claim 1]\<rparr>"
  have 1: "poll_loop (js ''17'') [message 3 ''x@y.z'' ''Joe''] state1 = (None, ?st1)"
    by (simp add: state1_eq state0_def tenant0_def message_def model_eval)
  have 2: "process_message (js ''17'') (unparsable 1) ?st1 = (Some Rejected, ?st2)"
    by (simp add: state1_eq state0_def unparsable_def model_eval)
  from failure_ends_poll_cycle [OF 1 2, of "[message 2 ''doc@clinic.com'' ''Jane Doe'']"]
  show ?thesis by simp
qed

text \<open>
  Claim C8, as stated, fails: a message that cannot be parsed ends the cycle with the error,
  and the good message behind it is neither claimed nor turned into a record in this cycle.
\<close>

theorem failure_aborts_remaining_messages:
  "poll_cycle (js ''17'') (Some [unparsable 1, message 2 ''doc@clinic.com'' ''Jane Doe'']) state1 =
     (Some Rejected, state1\<lparr>processedUids := {1}, history := [Claim 1]\<rparr>)"
  by (simp add: state1_eq state0_def unparsable_def model_eval)

section \<open>The request text\<close>

text \<open>
  Claim C9. Quotes, backslashes and line breaks in the name or in a field value must not
  change the structure of the request. The code splices the name into the request text as it
  is. For the name \<open>Jane "JJ" Doe\<close> the string that starts at the opening quote of \<open>item_name\<close>
  ends after \<open>Jane \<close>, and the rest of the name is read as request syntax.
\<close>

theorem quote_in_name_ends_string:
  \<open>createItem_query (js ''17'') (js ''Jane "JJ" Doe'') [] =
     js ''\<newline>    mutation {\<newline>      create_item(\<newline>        board_id: 17,\<newline>        item_name: "''
     @ js ''Jane "JJ" Doe''
     @ js ''",\<newline>        column_values: "{}"\<newline>      ) {\<newline>        id\<newline>      }\<newline>    }\<newline>  ''
   \<and> graphql_string_body
       (js ''Jane "JJ" Doe''
        @ js ''",\<newline>        column_values: "{}"\<newline>      ) {\<newline>        id\<newline>      }\<newline>    }\<newline>  '')
     = Some (js ''Jane '',
             js ''JJ" Doe",\<newline>        column_values: "{}"\<newline>      ) {\<newline>        id\<newline>      }\<newline>    }\<newline>  '')\<close>
  by (simp add: createItem_query_def js_def replace_quotes_def quoteJSONString_def)

section \<open>The sender configuration endpoint\<close>

lemma config_sender_unknown:
  "boardStore st boardId = None \<Longrightarrow> \<not> inherited_truthy st boardId \<Longrightarrow>
   config_sender unicodeLower boardId email st = (NotFound, st)"
  by (simp add: config_sender_def)

lemma config_sender_no_string:
  "boardStore st boardId = Some cfg \<Longrightarrow>
   config_sender unicodeLower boardId None st = (Threw, st)"
  by (simp add: config_sender_def)

lemma config_sender_saved:
  "boardStore st boardId = Some cfg \<Longrightarrow>
   config_sender unicodeLower boardId (Some s) st =
     (Saved, st\<lparr>boardStore := (boardStore st)(boardId \<mapsto>
                      cfg\<lparr>allowedSenderEmail := Some (toLowerCase unicodeLower s)\<rparr>)\<rparr>)"
  by (simp add: config_sender_def)

text \<open>
  Claim C10. An unknown board identifier is answered with the not-found error and changes
  nothing; a known one without a string raises; a known one with a string stores the
  lower-case string. The second and third part hold, and so does the first for identifiers
  that the store does not inherit (the three lemmas above). The first part fails for the
  property names that the store inherits: for \<open>__proto__\<close>, with no tenant of that name, the
  handler confirms and writes the lower-case address to \<open>Object.prototype\<close>.
\<close>

theorem proto_key_not_rejected:
  assumes "boardStore st (js ''__proto__'') = None"
  shows "config_sender unicodeLower (js ''__proto__'') (Some s) st =
           (Saved, st\<lparr>proto_allowedSenderEmail := Some (toLowerCase unicodeLower s)\<rparr>)"
  using assms by (simp add: config_sender_def inherited_truthy_def Object_prototype_keys_def)

theorem proto_key_not_rejected_witness:
  "config_sender (\<lambda>s. s) (js ''__proto__'') (Some (js ''Evil@X.com'')) state0 =
     (Saved, state0\<lparr>proto_allowedSenderEmail := Some (js ''evil@x.com'')\<rparr>)"
proof -
  have 1: "boardStore state0 (js ''__proto__'') = None"
    by (simp add: state0_def initial_state_def js_def)
  have 2: "toLowerCase (\<lambda>s. s) (js ''Evil@X.com'') = js ''evil@x.com''"
    by (simp add: toLowerCase_def js_def)
  from proto_key_not_rejected [OF 1, of "\<lambda>s. s" "js ''Evil@X.com''"] 2
  show ?thesis by simp
qed

text \<open>
  After that request, the tenant of board 17, which has no allowed sender of its own, takes a
  message from that address and issues a record-creation call for it.
\<close>

lemma inherited_sender_accepted:
  "created_uids (history (snd (process_message (js ''17'') (message 9 ''evil@x.com'' ''Jane Doe'')
      (snd (config_sender (\<lambda>s. s) (js ''__proto__'') (Some (js ''Evil@X.com'')) state0))))) = [9]"
  by (simp add: state0_def tenant0_def message_def model_eval Object_prototype_keys_def)

end
